theory Spec2Isabelle
  imports Main
begin

section \<open>JavaScript values\<close>

text \<open>
  The values the strategy reads and builds itself: the entries of \<open>req.query\<close>, the
  document built by the XML parser, the errors and messages it creates. They are finite
  trees (the values of the host, which need not be, come below). A string stands for a well-formed JavaScript
  string and is kept as its UTF-8 bytes; a number is an integer that JavaScript prints
  in plain decimal digits (or \<open>NaN\<close>); an object is a plain one and lists its own
  enumerable properties in enumeration order; \<open>JErr name message\<close> is an \<open>Error\<close>
  object, so \<open>new Error(m)\<close> is \<open>JErr ''Error'' m\<close>.
\<close>

datatype jsval =
    JUndefined
  | JNull
  | JBool bool
  | JNum int
  | JNaN
  | JStr string
  | JArr "jsval list"
  | JObj "(string \<times> jsval) list"
  | JErr string string

text \<open>What \<open>if (v)\<close> tests.\<close>

fun truthy :: "jsval \<Rightarrow> bool" where
  "truthy JUndefined = False"
| "truthy JNull = False"
| "truthy (JBool b) = b"
| "truthy (JNum n) = (n \<noteq> 0)"
| "truthy JNaN = False"
| "truthy (JStr s) = (s \<noteq> [])"
| "truthy (JArr xs) = True"
| "truthy (JObj kvs) = True"
| "truthy (JErr n m) = True"

fun nullish :: "jsval \<Rightarrow> bool" where
  "nullish JUndefined = True"
| "nullish JNull = True"
| "nullish v = False"

text \<open>
  \<open>v.k\<close> for a value \<open>v\<close> that is neither \<open>undefined\<close> nor \<open>null\<close> (there JavaScript
  throws; the strategy reads a property with a plain dot only of a value it has just
  tested truthy), and \<open>v?.k\<close>. None of the keys read by the strategy is a built-in
  property of a string, an array or an \<open>Error\<close>.
\<close>

definition get_member :: "jsval \<Rightarrow> string \<Rightarrow> jsval" where
  "get_member v k =
     (case v of
        JObj kvs \<Rightarrow> (case map_of kvs k of Some x \<Rightarrow> x | None \<Rightarrow> JUndefined)
      | _ \<Rightarrow> JUndefined)"

definition opt_member :: "jsval \<Rightarrow> string \<Rightarrow> jsval" where
  "opt_member v k = (if nullish v then JUndefined else get_member v k)"

subsection \<open>Conversion to string\<close>

definition digit_char :: "nat \<Rightarrow> char" where
  "digit_char d = ''0123456789'' ! d"

fun show_nat :: "nat \<Rightarrow> string" where
  "show_nat n =
     (if n < 10 then [digit_char n] else show_nat (n div 10) @ [digit_char (n mod 10)])"

declare show_nat.simps [simp del]

definition show_int :: "int \<Rightarrow> string" where
  "show_int i = (if i < 0 then CHR ''-'' # show_nat (nat (- i)) else show_nat (nat i))"

fun join :: "string \<Rightarrow> string list \<Rightarrow> string" where
  "join sep [] = []"
| "join sep [x] = x"
| "join sep (x # y # ys) = x @ sep @ join sep (y # ys)"

text \<open>
  \<open>String(v)\<close>, which is also what a template literal and \<open>"..." + v\<close> apply to \<open>v\<close>,
  and what \<open>URLSearchParams.set\<close> applies to its arguments.
\<close>

fun to_string :: "jsval \<Rightarrow> string" where
  "to_string JUndefined = ''undefined''"
| "to_string JNull = ''null''"
| "to_string (JBool b) = (if b then ''true'' else ''false'')"
| "to_string (JNum n) = show_int n"
| "to_string JNaN = ''NaN''"
| "to_string (JStr s) = s"
| "to_string (JArr xs) =
     join '','' (map (\<lambda>x. case x of JUndefined \<Rightarrow> [] | JNull \<Rightarrow> [] | _ \<Rightarrow> to_string x) xs)"
| "to_string (JObj kvs) = ''[object Object]''"
| "to_string (JErr n m) = (if m = [] then n else if n = [] then m else n @ '': '' @ m)"

subsection \<open>\<open>JSON.stringify\<close>\<close>

definition hex_lower :: "nat \<Rightarrow> char" where
  "hex_lower d = ''0123456789abcdef'' ! d"

definition json_char :: "char \<Rightarrow> string" where
  "json_char c =
     (if c = CHR ''\"'' then [CHR 0x5C, CHR ''\"'']
      else if c = CHR 0x5C then [CHR 0x5C, CHR 0x5C]
      else if c = CHR 0x08 then [CHR 0x5C, CHR ''b'']
      else if c = CHR 0x0C then [CHR 0x5C, CHR ''f'']
      else if c = CHR 0x0A then [CHR 0x5C, CHR ''n'']
      else if c = CHR 0x0D then [CHR 0x5C, CHR ''r'']
      else if c = CHR 0x09 then [CHR 0x5C, CHR ''t'']
      else if (of_char c :: nat) < 32 then
        [CHR 0x5C, CHR ''u'', CHR ''0'', CHR ''0'',
         hex_lower (of_char c div 16), hex_lower (of_char c mod 16)]
      else [c])"

definition json_quote :: "string \<Rightarrow> string" where
  "json_quote s = [CHR ''\"''] @ concat (map json_char s) @ [CHR ''\"'']"

fun json :: "jsval \<Rightarrow> string option" where
  "json JUndefined = None"
| "json JNull = Some ''null''"
| "json (JBool b) = Some (if b then ''true'' else ''false'')"
| "json (JNum n) = Some (show_int n)"
| "json JNaN = Some ''null''"
| "json (JStr s) = Some (json_quote s)"
| "json (JArr xs) =
     Some (''['' @ join '','' (map (\<lambda>x. case json x of None \<Rightarrow> ''null'' | Some t \<Rightarrow> t) xs) @ '']'')"
| "json (JObj kvs) =
     Some (''{'' @ join '',''
        (concat (map (\<lambda>(k, v). case json v of None \<Rightarrow> [] | Some t \<Rightarrow> [json_quote k @ '':'' @ t]) kvs))
        @ ''}'')"
| "json (JErr n m) = Some ''{}''"

definition JSON_stringify :: "jsval \<Rightarrow> jsval" where
  "JSON_stringify v = (case json v of None \<Rightarrow> JUndefined | Some t \<Rightarrow> JStr t)"

subsection \<open>Values of the host\<close>

text \<open>
  The error, the profile, the info and the challenge that the host's hook gives to the
  completion callback, and the error of its local logout, have the types \<open>any\<close> and
  \<open>object\<close>: besides the values above, the host may give an object that
  \<open>JSON.stringify\<close> cannot serialise, one with a cycle or one that holds a \<open>BigInt\<close>.
  For such an object \<open>JSON.stringify\<close> throws a \<open>TypeError\<close>, whose message the
  constructor carries; on a tree it returns as above. \<open>Inl\<close> is the exception.
\<close>

datatype hostval = Plain jsval | Unserializable string

fun truthy_host :: "hostval \<Rightarrow> bool" where
  "truthy_host (Plain v) = truthy v"
| "truthy_host (Unserializable m) = True"

fun JSON_stringify_host :: "hostval \<Rightarrow> jsval + jsval" where
  "JSON_stringify_host (Plain v) = Inr (JSON_stringify v)"
| "JSON_stringify_host (Unserializable m) = Inl (JErr ''TypeError'' m)"

section \<open>The platform: URL, URLSearchParams, the XML parser, the HTTP client\<close>

subsection \<open>URL records and their serialisation\<close>

text \<open>
  A URL object holds a URL record of the URL Standard. The model covers URLs with a
  hierarchical path (a list of segments), as every \<open>http\<close> and \<open>https\<close> URL has; the
  host is kept in its serialised form.
\<close>

record url =
  scheme :: string
  username :: string
  password :: string
  host :: "string option"
  port :: "nat option"
  path :: "string list"
  url_query :: "string option"
  fragment :: "string option"

text \<open>\<open>url.toString()\<close>, the URL serialiser.\<close>

definition href :: "url \<Rightarrow> string" where
  "href u =
     scheme u @ '':'' @
     (case host u of
        Some h \<Rightarrow>
          ''//'' @
          (if username u \<noteq> [] \<or> password u \<noteq> [] then
             username u @ (if password u \<noteq> [] then '':'' @ password u else []) @ ''@''
           else []) @
          h @
          (case port u of None \<Rightarrow> [] | Some n \<Rightarrow> '':'' @ show_nat n)
      | None \<Rightarrow>
          (case path u of a # b # rest \<Rightarrow> if a = [] then ''/.'' else [] | _ \<Rightarrow> [])) @
     concat (map (\<lambda>seg. ''/'' @ seg) (path u)) @
     (case url_query u of None \<Rightarrow> [] | Some q \<Rightarrow> ''?'' @ q) @
     (case fragment u of None \<Rightarrow> [] | Some f \<Rightarrow> ''#'' @ f)"

subsection \<open>Percent-encoding and UTF-8\<close>

definition hex_digit :: "nat \<Rightarrow> char" where
  "hex_digit d = ''0123456789ABCDEF'' ! d"

definition is_hex_digit :: "char \<Rightarrow> bool" where
  "is_hex_digit c =
     (let n = of_char c :: nat in (48 \<le> n \<and> n \<le> 57) \<or> (65 \<le> n \<and> n \<le> 70) \<or> (97 \<le> n \<and> n \<le> 102))"

definition hex_value :: "char \<Rightarrow> nat" where
  "hex_value c =
     (let n = of_char c :: nat in
      if n \<le> 57 then n - 48 else if n \<le> 70 then n - 55 else n - 87)"

text \<open>Percent-decoding of a byte sequence.\<close>

fun percent_decode :: "string \<Rightarrow> string" where
  "percent_decode (c # h # l # rest) =
     (if c = CHR ''%'' \<and> is_hex_digit h \<and> is_hex_digit l
      then char_of (hex_value h * 16 + hex_value l) # percent_decode rest
      else c # percent_decode (h # l # rest))"
| "percent_decode cs = cs"

definition in_range :: "nat \<Rightarrow> nat \<Rightarrow> char \<Rightarrow> bool" where
  "in_range lo hi c = (lo \<le> of_char c \<and> of_char c \<le> hi)"

definition replacement :: string where
  "replacement = [CHR 0xEF, CHR 0xBF, CHR 0xBD]"

text \<open>
  ``UTF-8 decode without BOM'' followed by ``UTF-8 encode'', on bytes: the decoder of the
  Encoding Standard, which replaces every maximal ill-formed part by U+FFFD, composed
  with the encoder. Since a string of the model is the UTF-8 form of a JavaScript
  string, this is what decoding does to a byte sequence.
\<close>

fun utf8_decode :: "string \<Rightarrow> string" where
  "utf8_decode [] = []"
| "utf8_decode (b # bs) =
     (let n = of_char b :: nat in
      if n \<le> 0x7F then b # utf8_decode bs
      else if 0xC2 \<le> n \<and> n \<le> 0xDF then
        (case bs of
           [] \<Rightarrow> replacement
         | c # cs \<Rightarrow>
             if in_range 0x80 0xBF c then b # c # utf8_decode cs
             else replacement @ utf8_decode bs)
      else if 0xE0 \<le> n \<and> n \<le> 0xEF then
        (case bs of
           [] \<Rightarrow> replacement
         | c # cs \<Rightarrow>
             if \<not> in_range (if n = 0xE0 then 0xA0 else 0x80) (if n = 0xED then 0x9F else 0xBF) c
             then replacement @ utf8_decode bs
             else
               (case cs of
                  [] \<Rightarrow> replacement
                | d # ds \<Rightarrow>
                    if in_range 0x80 0xBF d then b # c # d # utf8_decode ds
                    else replacement @ utf8_decode cs))
      else if 0xF0 \<le> n \<and> n \<le> 0xF4 then
        (case bs of
           [] \<Rightarrow> replacement
         | c # cs \<Rightarrow>
             if \<not> in_range (if n = 0xF0 then 0x90 else 0x80) (if n = 0xF4 then 0x8F else 0xBF) c
             then replacement @ utf8_decode bs
             else
               (case cs of
                  [] \<Rightarrow> replacement
                | d # ds \<Rightarrow>
                    if \<not> in_range 0x80 0xBF d then replacement @ utf8_decode cs
                    else
                      (case ds of
                         [] \<Rightarrow> replacement
                       | e # es \<Rightarrow>
                           if in_range 0x80 0xBF e then b # c # d # e # utf8_decode es
                           else replacement @ utf8_decode ds)))
      else replacement @ utf8_decode bs)"

declare utf8_decode.simps(2) [simp del]

subsection \<open>The \<open>application/x-www-form-urlencoded\<close> format\<close>

fun split_on :: "char \<Rightarrow> string \<Rightarrow> string list" where
  "split_on c [] = [[]]"
| "split_on c (x # xs) =
     (if x = c then [] # split_on c xs
      else (case split_on c xs of [] \<Rightarrow> [[x]] | y # ys \<Rightarrow> (x # y) # ys))"

definition plus_to_space :: "string \<Rightarrow> string" where
  "plus_to_space s = map (\<lambda>c. if c = CHR ''+'' then CHR '' '' else c) s"

definition urlencoded_decode :: "string \<Rightarrow> string" where
  "urlencoded_decode s = utf8_decode (percent_decode (plus_to_space s))"

definition parse_tuple :: "string \<Rightarrow> string \<times> string" where
  "parse_tuple bytes =
     (urlencoded_decode (takeWhile (\<lambda>c. c \<noteq> CHR ''='') bytes),
      urlencoded_decode (drop 1 (dropWhile (\<lambda>c. c \<noteq> CHR ''='') bytes)))"

text \<open>The parser: the list of name-value tuples of a query string.\<close>

definition urlencoded_parse :: "string \<Rightarrow> (string \<times> string) list" where
  "urlencoded_parse input = map parse_tuple (filter (\<lambda>bytes. bytes \<noteq> []) (split_on CHR ''&'' input))"

definition unreserved :: "char \<Rightarrow> bool" where
  "unreserved c =
     (let n = of_char c :: nat in
      n = 0x2A \<or> n = 0x2D \<or> n = 0x2E \<or> (0x30 \<le> n \<and> n \<le> 0x39) \<or>
      (0x41 \<le> n \<and> n \<le> 0x5A) \<or> n = 0x5F \<or> (0x61 \<le> n \<and> n \<le> 0x7A))"

definition urlencoded_byte :: "char \<Rightarrow> string" where
  "urlencoded_byte c =
     (if c = CHR '' '' then ''+''
      else if unreserved c then [c]
      else [CHR ''%'', hex_digit (of_char c div 16), hex_digit (of_char c mod 16)])"

definition urlencoded_encode :: "string \<Rightarrow> string" where
  "urlencoded_encode s = concat (map urlencoded_byte s)"

text \<open>The serialiser: \<open>name=value\<close> for each tuple, joined by \<open>&\<close>.\<close>

definition serialize_tuple :: "string \<times> string \<Rightarrow> string" where
  "serialize_tuple t = urlencoded_encode (fst t) @ ''='' @ urlencoded_encode (snd t)"

definition urlencoded_serialize :: "(string \<times> string) list \<Rightarrow> string" where
  "urlencoded_serialize tuples = join ''&'' (map serialize_tuple tuples)"

subsection \<open>\<open>url.searchParams\<close>\<close>

text \<open>
  The list of the URL's query object is the parse of the URL's query. Every method
  that changes the list ends with the update steps: the list is serialised and becomes
  the URL's query, and an empty serialisation makes the query null.
\<close>

definition searchParams :: "url \<Rightarrow> (string \<times> string) list" where
  "searchParams u = urlencoded_parse (case url_query u of None \<Rightarrow> [] | Some q \<Rightarrow> q)"

definition searchParams_update :: "(string \<times> string) list \<Rightarrow> url \<Rightarrow> url" where
  "searchParams_update tuples u =
     u\<lparr>url_query := (let q = urlencoded_serialize tuples in if q = [] then None else Some q)\<rparr>"

definition searchParams_delete :: "string \<Rightarrow> url \<Rightarrow> url" where
  "searchParams_delete name u =
     searchParams_update (filter (\<lambda>(n, v). n \<noteq> name) (searchParams u)) u"

fun set_tuple :: "string \<Rightarrow> string \<Rightarrow> (string \<times> string) list \<Rightarrow> (string \<times> string) list" where
  "set_tuple name val [] = [(name, val)]"
| "set_tuple name val ((n, v) # rest) =
     (if n = name then (name, val) # filter (\<lambda>(n', v'). n' \<noteq> name) rest
      else (n, v) # set_tuple name val rest)"

definition searchParams_set :: "string \<Rightarrow> string \<Rightarrow> url \<Rightarrow> url" where
  "searchParams_set name val u = searchParams_update (set_tuple name val (searchParams u)) u"

subsection \<open>What the strategy is given by its environment\<close>

datatype 'a promise = Fulfilled 'a | Rejected jsval

record response =
  status :: nat
  statusText :: string
  data :: string

text \<open>
  \<open>new_URL input base\<close> is \<open>new URL(input, base)\<close>, \<open>None\<close> when the constructor throws
  its \<open>TypeError\<close>; \<open>parseString options body\<close> is the pair \<open>(err, result)\<close> that
  \<open>xml2js.parseString\<close> hands to its callback (the option \<open>normalize\<close> is the field
  \<open>normalizeText\<close>); \<open>axios_get url\<close> is how the promise of \<open>axios.get(url)\<close> settles.
  The URL parser, the XML parser and the network are not code of the strategy: they are
  parameters of the model.
\<close>

datatype processor = Normalize | StripPrefix

record xml_options =
  trim :: bool
  normalizeText :: bool
  explicitArray :: bool
  tagNameProcessors :: "processor list"

record platform =
  new_URL :: "string \<Rightarrow> string \<Rightarrow> url option"
  parseString :: "xml_options \<Rightarrow> string \<Rightarrow> jsval \<times> jsval"
  axios_get :: "string \<Rightarrow> response promise"

definition invalid_url :: jsval where
  "invalid_url = JErr ''TypeError'' ''Invalid URL''"

section \<open>The strategy\<close>

definition XML_PARSE_OPTIONS :: xml_options where
  "XML_PARSE_OPTIONS =
     \<lparr>trim = True, normalizeText = True, explicitArray = False,
      tagNameProcessors = [Normalize, StripPrefix]\<rparr>"

record CasOptions =
  base :: string
  loginRoute :: string
  validateRoute :: string
  logoutRoute :: string
  serverUrl :: string

text \<open>
  What the strategy does to the outside, in the order it does it: the outcomes it
  declares to passport (\<open>this.fail\<close>, \<open>this.success\<close>, \<open>this.redirect\<close>), the calls of the
  two optional loggers, of the host's verification hook, of \<open>req.logout\<close> and of the HTTP
  client.
\<close>

datatype effect =
    Fail hostval
  | Success hostval hostval
  | Redirect string
  | ErrorLogger string hostval
  | DebugLogger jsval
  | ReqLogout
  | VerifyHook jsval
  | AxiosGet string

text \<open>
  The hook is given the profile and the completion callback; \<open>verify s profile\<close> lists
  the argument tuples \<open>(err, profile, info, challenge)\<close> with which it calls the callback
  (none when it never does). The loggers are optional: the fields say whether one was
  given to the constructor.
\<close>

record strategy =
  config :: CasOptions
  verify :: "jsval \<Rightarrow> (hostval \<times> hostval \<times> hostval \<times> hostval) list"
  errorLogger :: bool
  debugLogger :: bool

text \<open>
  \<open>req.logout(cb)\<close> is the host's: it returns and never calls \<open>cb\<close>, or calls
  \<open>cb(err)\<close> before it returns, or returns and calls \<open>cb(err)\<close> later, or throws.
  \<open>query req k\<close> is \<open>req.query[k]\<close>, \<open>JUndefined\<close> for an absent parameter.
\<close>

datatype callback = Never | Sync hostval | Later hostval | Throwing jsval


record request =
  originalUrl :: string
  query :: "string \<Rightarrow> jsval"
  req_logout :: callback

definition logError :: "strategy \<Rightarrow> string \<Rightarrow> hostval \<Rightarrow> effect list" where
  "logError s msg err = (if errorLogger s then [ErrorLogger msg err] else [])"

definition logDebug :: "strategy \<Rightarrow> jsval \<Rightarrow> effect list" where
  "logDebug s msg = (if debugLogger s then [DebugLogger msg] else [])"

text \<open>
  A call of a method that returns or throws: its effects, and how it ends. In
  \<open>onceVerified\<close> the argument \<open>JSON.stringify(profile)\<close> of \<open>logDebug\<close> is evaluated
  whether or not a debug logger was given, after the first debug message and before the
  outcome is declared.
\<close>

datatype completion = Returned | Thrown jsval

definition onceVerified ::
  "strategy \<Rightarrow> hostval \<Rightarrow> hostval \<Rightarrow> hostval \<Rightarrow> hostval \<Rightarrow> effect list \<times> completion" where
  "onceVerified s err profile info challenge =
     (if truthy_host err then
        (logError s ''CAS verified callback error'' err @ [Fail challenge], Returned)
      else if \<not> truthy_host profile then
        (case JSON_stringify_host profile of
           Inl e \<Rightarrow>
             (logDebug s (JStr ''CAS verified callback error: invalid profile''), Thrown e)
         | Inr j \<Rightarrow>
             (logDebug s (JStr ''CAS verified callback error: invalid profile'') @
              logDebug s j @ [Fail challenge],
              Returned))
      else
        (case JSON_stringify_host profile of
           Inl e \<Rightarrow> (logDebug s (JStr ''CAS verified callback success''), Thrown e)
         | Inr j \<Rightarrow>
             (logDebug s (JStr ''CAS verified callback success'') @
              logDebug s j @ [Success profile info],
              Returned)))"

text \<open>
  \<open>done(err, profile)\<close> inside \<open>validate\<close>: no \<open>info\<close> and no \<open>challenge\<close> is passed, and
  both arguments are trees, so that the call returns (lemma \<open>done2_returns\<close>). When the
  hook calls the completion callback, an exception of the callback is thrown to the hook,
  its caller; \<open>validate\<close> lists the effects of those calls.
\<close>

definition done2 :: "strategy \<Rightarrow> jsval \<Rightarrow> jsval \<Rightarrow> effect list" where
  "done2 s err profile =
     fst (onceVerified s (Plain err) (Plain profile) (Plain JUndefined) (Plain JUndefined))"

definition validate :: "platform \<Rightarrow> strategy \<Rightarrow> string \<Rightarrow> effect list" where
  "validate p s body =
     (case parseString p XML_PARSE_OPTIONS body of (err, result) \<Rightarrow>
        if truthy err \<or> \<not> truthy result then
          done2 s (JErr ''Error'' ''Bad response from server'') JNull
        else if truthy (opt_member (get_member result ''serviceresponse'') ''authenticationfailure'') then
          done2 s
            (JErr ''Error''
               (''Authentication failed '' @
                to_string
                  (opt_member
                     (get_member
                        (get_member (get_member result ''serviceresponse'') ''authenticationfailure'')
                        ''$'')
                     ''code'')))
            JNull
        else
          (let success = opt_member (get_member result ''serviceresponse'') ''authenticationsuccess'' in
           if truthy success then
             logDebug s (JStr ''CAS validate: ticket ok, calling user verify function'') @
             logDebug s (JStr (''Got profile: '' @ to_string (JSON_stringify success))) @
             [VerifyHook success] @
             concat (map (\<lambda>(e, pr, i, c). fst (onceVerified s e pr i c)) (verify s success))
           else done2 s (JErr ''Error'' ''Authentication failed'') JNull))"

definition getReqService :: "platform \<Rightarrow> strategy \<Rightarrow> request \<Rightarrow> string option" where
  "getReqService p s req =
     (case new_URL p (originalUrl req) (serverUrl (config s)) of
        None \<Rightarrow> None
      | Some u \<Rightarrow> Some (href (searchParams_delete ''ticket'' u)))"

text \<open>
  A run of an \<open>async\<close> method: the effects, and how the returned promise settles. A
  \<open>TypeError\<close> of the URL constructor, an exception of \<open>req.logout\<close> and a rejection of
  the awaited request reject it: \<open>authenticate\<close> has no \<open>try\<close>. (\<open>logout\<close> is called only
  as the last step of \<open>authenticate\<close>, so its exception is written as the rejection.)
\<close>

definition after :: "effect list \<Rightarrow> effect list \<times> unit promise \<Rightarrow> effect list \<times> unit promise" where
  "after es r = (es @ fst r, snd r)"

definition logout_cb :: "strategy \<Rightarrow> hostval \<Rightarrow> effect list" where
  "logout_cb s err = (if truthy_host err then logError s ''Failed to log request out'' err else [])"

definition logout :: "platform \<Rightarrow> strategy \<Rightarrow> request \<Rightarrow> effect list \<times> unit promise" where
  "logout p s req =
     (case req_logout req of
        Throwing e \<Rightarrow> ([ReqLogout], Rejected e)
      | _ \<Rightarrow>
          after (ReqLogout # (case req_logout req of Sync err \<Rightarrow> logout_cb s err | _ \<Rightarrow> []))
            (case new_URL p (logoutRoute (config s)) (base (config s)) of
               None \<Rightarrow>
                 ((case req_logout req of Later err \<Rightarrow> logout_cb s err | _ \<Rightarrow> []),
                  Rejected invalid_url)
             | Some redirectURL \<Rightarrow>
                 (Redirect
                    (href
                       (searchParams_set ''RelayState'' (to_string (query req ''RelayState''))
                          (searchParams_set ''_eventId'' ''next'' redirectURL))) #
                  (case req_logout req of Later err \<Rightarrow> logout_cb s err | _ \<Rightarrow> []),
                  Fulfilled ())))"

definition authenticate :: "platform \<Rightarrow> strategy \<Rightarrow> request \<Rightarrow> effect list \<times> unit promise" where
  "authenticate p s req =
     (if truthy (query req ''RelayState'') then
        after (logDebug s (JStr ''RelayState present, logging out'')) (logout p s req)
      else
        (case getReqService p s req of
           None \<Rightarrow> ([], Rejected invalid_url)
         | Some service \<Rightarrow>
             after (logDebug s (JStr (''Extracted service: '' @ service)))
               (let ticket = query req ''ticket'' in
                if \<not> truthy ticket then
                  after (logDebug s (JStr ''No ticket provided, starting login process''))
                    (case new_URL p (loginRoute (config s)) (base (config s)) of
                       None \<Rightarrow> ([], Rejected invalid_url)
                     | Some redirectURL \<Rightarrow>
                         ([Redirect (href (searchParams_set ''service'' service redirectURL))],
                          Fulfilled ()))
                else
                  after
                    (logDebug s
                       (JStr (''Got ticket '' @ to_string ticket @ '', starting validation process'')))
                    (case new_URL p (validateRoute (config s)) (base (config s)) of
                       None \<Rightarrow> ([], Rejected invalid_url)
                     | Some target \<Rightarrow>
                         (let target' =
                                searchParams_set ''service'' service
                                  (searchParams_set ''ticket'' (to_string ticket) target)
                          in
                          after [AxiosGet (href target')]
                            (case axios_get p (href target') of
                               Rejected e \<Rightarrow> ([], Rejected e)
                             | Fulfilled res \<Rightarrow>
                                 if status res = 200 then
                                   (logDebug s (JStr (''Got info: '' @ data res)) @
                                    validate p s (data res),
                                    Fulfilled ())
                                 else
                                   (logError s ''Failed to validate ticket''
                                      (Plain (JStr (statusText res))) @
                                    [Fail (Plain (JErr ''Error'' (statusText res)))],
                                    Fulfilled ())))))))"

section \<open>Reading a run\<close>

fun is_outcome :: "effect \<Rightarrow> bool" where
  "is_outcome (Fail c) = True"
| "is_outcome (Success u i) = True"
| "is_outcome (Redirect t) = True"
| "is_outcome e = False"

definition outcomes :: "effect list \<Rightarrow> effect list" where
  "outcomes es = filter is_outcome es"

fun is_hook_call :: "effect \<Rightarrow> bool" where
  "is_hook_call (VerifyHook pr) = True"
| "is_hook_call e = False"

definition hook_calls :: "effect list \<Rightarrow> effect list" where
  "hook_calls es = filter is_hook_call es"

text \<open>
  A byte string is well formed when it is the UTF-8 form of a string, that is when
  decoding leaves it as it is; an ASCII string is.
\<close>

definition well_formed :: "string \<Rightarrow> bool" where
  "well_formed s = (utf8_decode s = s)"

definition ascii :: "string \<Rightarrow> bool" where
  "ascii s = list_all (\<lambda>c. (of_char c :: nat) < 128) s"

section \<open>Example inputs\<close>

text \<open>
  Documents as the XML parser builds them under the strategy's options (lower-case tag
  names without prefix, attributes under \<open>$\<close>, text under \<open>_\<close>, no one-element
  arrays), a parser that knows the bodies they come from and rejects every other body
  but the empty one, and a strategy with an error logger whose hook accepts every
  profile.
\<close>

definition alice_profile :: jsval where
  "alice_profile =
     JObj [(''user'', JStr ''alice''), (''attributes'', JObj [(''email'', JStr ''a@x.com'')])]"

definition invalid_ticket_doc :: jsval where
  "invalid_ticket_doc =
     JObj [(''serviceresponse'',
       JObj [(''authenticationfailure'',
         JObj [(''_'', JStr ''Ticket ST-1 not recognized''),
               (''$'', JObj [(''code'', JStr ''INVALID_TICKET'')])])])]"

definition success_doc :: jsval where
  "success_doc = JObj [(''serviceresponse'', JObj [(''authenticationsuccess'', alice_profile)])]"

definition both_doc :: jsval where
  "both_doc =
     JObj [(''serviceresponse'',
       JObj [(''authenticationfailure'', JObj [(''$'', JObj [(''code'', JStr ''INVALID_TICKET'')])]),
             (''authenticationsuccess'', alice_profile)])]"

text \<open>An empty failure element without attributes is rendered as the empty string.\<close>

definition empty_failure_doc :: jsval where
  "empty_failure_doc =
     JObj [(''serviceresponse'',
       JObj [(''authenticationfailure'', JStr []), (''authenticationsuccess'', alice_profile)])]"

definition html_doc :: jsval where
  "html_doc = JObj [(''html'', JStr ''Service unavailable'')]"

definition failure_body :: string where
  "failure_body =
     ''<cas:serviceResponse><cas:authenticationFailure code=\"INVALID_TICKET\">Ticket ST-1 not recognized</cas:authenticationFailure></cas:serviceResponse>''"

definition success_body :: string where
  "success_body =
     ''<cas:serviceResponse><cas:authenticationSuccess><cas:user>alice</cas:user><cas:attributes><cas:email>a@x.com</cas:email></cas:attributes></cas:authenticationSuccess></cas:serviceResponse>''"

definition both_body :: string where
  "both_body =
     ''<cas:serviceResponse><cas:authenticationFailure code=\"INVALID_TICKET\"/><cas:authenticationSuccess><cas:user>alice</cas:user><cas:attributes><cas:email>a@x.com</cas:email></cas:attributes></cas:authenticationSuccess></cas:serviceResponse>''"

definition empty_failure_body :: string where
  "empty_failure_body =
     ''<cas:serviceResponse><cas:authenticationFailure/><cas:authenticationSuccess><cas:user>alice</cas:user><cas:attributes><cas:email>a@x.com</cas:email></cas:attributes></cas:authenticationSuccess></cas:serviceResponse>''"

definition html_body :: string where
  "html_body = ''<html>Service unavailable</html>''"

definition example_parseString :: "string \<Rightarrow> jsval \<times> jsval" where
  "example_parseString body =
     (if body = failure_body then (JNull, invalid_ticket_doc)
      else if body = success_body then (JNull, success_doc)
      else if body = both_body then (JNull, both_doc)
      else if body = empty_failure_body then (JNull, empty_failure_doc)
      else if body = html_body then (JNull, html_doc)
      else if body = [] then (JNull, JNull)
      else (JErr ''Error'' ''Non-whitespace before first tag.'', JUndefined))"

definition example_config :: CasOptions where
  "example_config =
     \<lparr>base = ''https://cas.example'', loginRoute = ''/login'',
      validateRoute = ''/p3/serviceValidate'', logoutRoute = ''/logout'',
      serverUrl = ''https://app.example''\<rparr>"

definition accept_hook :: "jsval \<Rightarrow> (hostval \<times> hostval \<times> hostval \<times> hostval) list" where
  "accept_hook profile = [(Plain JNull, Plain profile, Plain JUndefined, Plain JUndefined)]"

text \<open>
  A profile with a cycle, as \<open>const p = {user: "bob"}; p.self = p\<close> builds one, and what
  \<open>JSON.stringify\<close> says of it.
\<close>

definition cyclic_profile :: hostval where
  "cyclic_profile = Unserializable ''Converting circular structure to JSON''"

definition example_strategy :: strategy where
  "example_strategy =
     \<lparr>config = example_config, verify = accept_hook, errorLogger = True, debugLogger = False\<rparr>"

text \<open>
  What the URL constructor answers for the server of the examples,
  \<open>https://app.example\<close>, and for its CAS server, \<open>https://cas.example\<close>, on a few
  inputs; a network on which the CAS server cannot be reached; and requests as express
  hands them over, with a local logout that fails.
\<close>

definition https_url :: "string \<Rightarrow> string list \<Rightarrow> string option \<Rightarrow> url" where
  "https_url h segments q =
     \<lparr>scheme = ''https'', username = [], password = [], host = Some h, port = None,
      path = segments, url_query = q, fragment = None\<rparr>"

definition example_new_URL :: "string \<Rightarrow> string \<Rightarrow> url option" where
  "example_new_URL input b =
     (if b = ''https://app.example'' then
        (if input = ''/cb'' then Some (https_url ''app.example'' [''cb''] None)
         else if input = ''/cb?RelayState='' then
           Some (https_url ''app.example'' [''cb''] (Some ''RelayState=''))
         else if input = ''/cb?x'' then Some (https_url ''app.example'' [''cb''] (Some ''x''))
         else if input = ''/cb?x='' then Some (https_url ''app.example'' [''cb''] (Some ''x=''))
         else if input = ''/cb?ticket=ST-1&x=1'' then
           Some (https_url ''app.example'' [''cb''] (Some ''ticket=ST-1&x=1''))
         else if input = ''/cb?ticket=ST-1&x=1&ticket=2'' then
           Some (https_url ''app.example'' [''cb''] (Some ''ticket=ST-1&x=1&ticket=2''))
         else None)
      else if b = ''https://cas.example'' then
        (if input = ''/login'' then Some (https_url ''cas.example'' [''login''] None)
         else if input = ''/logout'' then Some (https_url ''cas.example'' [''logout''] None)
         else if input = ''/p3/serviceValidate'' then
           Some (https_url ''cas.example'' [''p3'', ''serviceValidate''] None)
         else None)
      else None)"

definition example_platform :: platform where
  "example_platform =
     \<lparr>new_URL = example_new_URL, parseString = (\<lambda>options. example_parseString),
      axios_get = (\<lambda>t. Rejected (JErr ''AxiosError'' ''connect ECONNREFUSED 127.0.0.1:443''))\<rparr>"

definition example_request :: "string \<Rightarrow> (string \<times> jsval) list \<Rightarrow> request" where
  "example_request target params =
     \<lparr>originalUrl = target,
      query = (\<lambda>k. case map_of params k of None \<Rightarrow> JUndefined | Some v \<Rightarrow> v),
      req_logout = Sync (Plain (JErr ''Error'' ''session store down''))\<rparr>"


section \<open>Reading runs: simplification rules\<close>

lemma opt_member_get [simp]: "opt_member v k = get_member v k"
  by (cases v) (simp_all add: opt_member_def get_member_def)

lemma outcomes_simps [simp]:
  "outcomes [] = []"
  "outcomes (Fail c # es) = Fail c # outcomes es"
  "outcomes (Success u i # es) = Success u i # outcomes es"
  "outcomes (Redirect t # es) = Redirect t # outcomes es"
  "outcomes (ErrorLogger m e # es) = outcomes es"
  "outcomes (DebugLogger d # es) = outcomes es"
  "outcomes (ReqLogout # es) = outcomes es"
  "outcomes (VerifyHook pr # es) = outcomes es"
  "outcomes (AxiosGet t # es) = outcomes es"
  by (simp_all add: outcomes_def)

lemma hook_calls_simps [simp]:
  "hook_calls [] = []"
  "hook_calls (Fail c # es) = hook_calls es"
  "hook_calls (Success u i # es) = hook_calls es"
  "hook_calls (Redirect t # es) = hook_calls es"
  "hook_calls (ErrorLogger m e # es) = hook_calls es"
  "hook_calls (DebugLogger d # es) = hook_calls es"
  "hook_calls (ReqLogout # es) = hook_calls es"
  "hook_calls (VerifyHook pr # es) = VerifyHook pr # hook_calls es"
  "hook_calls (AxiosGet t # es) = hook_calls es"
  by (simp_all add: hook_calls_def)

lemma outcomes_logError [simp]: "outcomes (logError s m e @ es) = outcomes es"
  by (simp add: outcomes_def logError_def)

lemma outcomes_logDebug [simp]: "outcomes (logDebug s m @ es) = outcomes es"
  by (simp add: outcomes_def logDebug_def)

lemma hook_calls_logError [simp]: "hook_calls (logError s m e @ es) = hook_calls es"
  by (simp add: hook_calls_def logError_def)

lemma hook_calls_logDebug [simp]: "hook_calls (logDebug s m @ es) = hook_calls es"
  by (simp add: hook_calls_def logDebug_def)

lemma outcomes_append [simp]: "outcomes (a @ b) = outcomes a @ outcomes b"
  by (simp add: outcomes_def)

lemma outcomes_logout_cb [simp]: "outcomes (logout_cb s err) = []"
  by (simp add: logout_cb_def logError_def)

lemma outcomes_logs [simp]: "outcomes (logDebug s m) = []" "outcomes (logError s t e) = []"
  by (simp_all add: logDebug_def logError_def)

lemma after_simps [simp]: "fst (after es r) = es @ fst r" "snd (after es r) = snd r"
  by (simp_all add: after_def)

lemma outcomes_callback [simp]:
  "outcomes (case cb of Sync err \<Rightarrow> logout_cb s err | _ \<Rightarrow> []) = []"
  "outcomes (case cb of Later err \<Rightarrow> logout_cb s err | _ \<Rightarrow> []) = []"
  by (cases cb; simp)+

section \<open>The urlencoded format and UTF-8: lemmas\<close>

subsection \<open>Percent-encoding\<close>

lemma hex_table:
  "\<forall>d \<in> set [0..<16].
     is_hex_digit (hex_digit d) \<and> hex_value (hex_digit d) = d \<and>
     hex_digit d \<noteq> CHR ''&'' \<and> hex_digit d \<noteq> CHR ''='' \<and> hex_digit d \<noteq> CHR ''+'' \<and>
     (of_char (hex_digit d) :: nat) < 128"
  by code_simp

lemma hex_digit_props:
  assumes "d < 16"
  shows "is_hex_digit (hex_digit d)" "hex_value (hex_digit d) = d"
    "hex_digit d \<noteq> CHR ''&''" "hex_digit d \<noteq> CHR ''=''" "hex_digit d \<noteq> CHR ''+''"
    "(of_char (hex_digit d) :: nat) < 128"
  using hex_table assms by simp_all

lemma of_char_div16: "(of_char (c::char) :: nat) div 16 < 16"
proof -
  have "(of_char c :: nat) < 256" by simp
  then show ?thesis by arith
qed

lemma hex_pair_value:
  "char_of (hex_value (hex_digit (of_char c div 16)) * 16 + hex_value (hex_digit (of_char c mod 16))) = c"
proof -
  have "hex_value (hex_digit (of_char c div 16)) = of_char c div 16"
    by (rule hex_digit_props(2)) (rule of_char_div16)
  moreover have "hex_value (hex_digit (of_char c mod 16)) = of_char c mod 16"
    by (rule hex_digit_props(2)) simp
  ultimately show ?thesis by simp
qed

lemma unreserved_not_special:
  assumes "unreserved c"
  shows "c \<noteq> CHR ''%''" "c \<noteq> CHR ''+''" "c \<noteq> CHR ''&''" "c \<noteq> CHR ''=''"
  using assms by (auto simp add: unreserved_def)

lemma percent_decode_plain: "c \<noteq> CHR ''%'' \<Longrightarrow> percent_decode (c # r) = c # percent_decode r"
proof (cases r)
  case Nil
  then show ?thesis by simp
next
  case (Cons h t)
  assume "c \<noteq> CHR ''%''"
  then show ?thesis using Cons by (cases t) simp_all
qed

lemma decode_encoded_byte:
  "percent_decode (plus_to_space (urlencoded_byte c @ r)) = c # percent_decode (plus_to_space r)"
proof (cases "c = CHR '' ''")
  case True
  then show ?thesis by (simp add: urlencoded_byte_def plus_to_space_def percent_decode_plain)
next
  case False
  show ?thesis
  proof (cases "unreserved c")
    case True
    with False show ?thesis
      using unreserved_not_special [OF True]
      by (simp add: urlencoded_byte_def plus_to_space_def percent_decode_plain)
  next
    case False
    have h: "of_char c mod 16 < (16::nat)" by simp
    from False \<open>c \<noteq> CHR '' ''\<close> show ?thesis
      using hex_digit_props [OF of_char_div16 [of c]] hex_digit_props [OF h] hex_pair_value [of c]
      by (simp add: urlencoded_byte_def plus_to_space_def)
  qed
qed

lemma decode_encode_bytes:
  "percent_decode (plus_to_space (urlencoded_encode s @ r)) = s @ percent_decode (plus_to_space r)"
proof (induction s)
  case Nil
  then show ?case by (simp add: urlencoded_encode_def)
next
  case (Cons c s)
  have "urlencoded_encode (c # s) @ r = urlencoded_byte c @ (urlencoded_encode s @ r)"
    by (simp add: urlencoded_encode_def)
  then show ?case using Cons decode_encoded_byte [of c "urlencoded_encode s @ r"] by simp
qed

lemma urlencoded_decode_encode: "urlencoded_decode (urlencoded_encode s) = utf8_decode s"
  using decode_encode_bytes [of s "[]"] by (simp add: urlencoded_decode_def plus_to_space_def)

lemma encoded_byte_chars:
  "ch \<in> set (urlencoded_byte c) \<Longrightarrow> ch \<noteq> CHR ''&'' \<and> ch \<noteq> CHR ''=''"
  using hex_digit_props [OF of_char_div16 [of c]] hex_digit_props [of "of_char c mod 16"]
    unreserved_not_special [of c]
  by (auto simp add: urlencoded_byte_def split: if_splits)

lemma encoded_chars:
  "ch \<in> set (urlencoded_encode s) \<Longrightarrow> ch \<noteq> CHR ''&'' \<and> ch \<noteq> CHR ''=''"
  using encoded_byte_chars by (auto simp add: urlencoded_encode_def)

subsection \<open>Parsing a serialised list\<close>

lemma split_on_plain: "c \<notin> set x \<Longrightarrow> split_on c x = [x]"
  by (induction x) auto

lemma split_on_append: "c \<notin> set x \<Longrightarrow> split_on c (x @ c # r) = x # split_on c r"
  by (induction x) auto

lemma split_on_join:
  "xs \<noteq> [] \<Longrightarrow> \<forall>x \<in> set xs. c \<notin> set x \<Longrightarrow> split_on c (join [c] xs) = xs"
proof (induction "[c]" xs rule: join.induct)
  case 1
  then show ?case by simp
next
  case (2 x)
  then show ?case by (simp add: split_on_plain)
next
  case (3 x y ys)
  then show ?case by (simp add: split_on_append)
qed

lemma parse_serialized_tuple:
  "parse_tuple (serialize_tuple t) = (utf8_decode (fst t), utf8_decode (snd t))"
proof -
  have "\<forall>ch \<in> set (urlencoded_encode (fst t)). ch \<noteq> CHR ''=''"
    using encoded_chars by blast
  then have "takeWhile (\<lambda>c. c \<noteq> CHR ''='') (urlencoded_encode (fst t) @ CHR ''='' # urlencoded_encode (snd t))
               = urlencoded_encode (fst t)"
    and "dropWhile (\<lambda>c. c \<noteq> CHR ''='') (urlencoded_encode (fst t) @ CHR ''='' # urlencoded_encode (snd t))
               = CHR ''='' # urlencoded_encode (snd t)"
    by simp_all
  then show ?thesis
    by (simp add: parse_tuple_def serialize_tuple_def urlencoded_decode_encode)
qed

lemma serialize_tuple_shape: "serialize_tuple t \<noteq> [] \<and> CHR ''&'' \<notin> set (serialize_tuple t)"
  using encoded_chars by (auto simp add: serialize_tuple_def)

text \<open>Parsing what the serialiser wrote gives the tuples back, each string decoded once more.\<close>

lemma urlencoded_parse_serialize:
  "urlencoded_parse (urlencoded_serialize tuples) =
     map (\<lambda>t. (utf8_decode (fst t), utf8_decode (snd t))) tuples"
proof (cases tuples)
  case Nil
  then show ?thesis by (simp add: urlencoded_parse_def urlencoded_serialize_def)
next
  case (Cons t ts)
  then have "map serialize_tuple tuples \<noteq> []" by simp
  moreover have "\<forall>x \<in> set (map serialize_tuple tuples). CHR ''&'' \<notin> set x"
    using serialize_tuple_shape by auto
  ultimately have "split_on CHR ''&'' (urlencoded_serialize tuples) = map serialize_tuple tuples"
    unfolding urlencoded_serialize_def by (rule split_on_join)
  moreover have "filter (\<lambda>bytes. bytes \<noteq> []) (map serialize_tuple tuples) = map serialize_tuple tuples"
    using serialize_tuple_shape by (simp add: filter_id_conv)
  ultimately show ?thesis
    by (simp add: urlencoded_parse_def parse_serialized_tuple)
qed

subsection \<open>Decoding is idempotent\<close>

text \<open>
  A complete well-formed sequence at the head of the input is copied, and decoding goes
  on behind it; the replacement character is such a sequence. So what the decoder
  produced is left unchanged by decoding it again.
\<close>

lemma utf8_decode_one:
  "(of_char b :: nat) \<le> 0x7F \<Longrightarrow> utf8_decode (b # t) = b # utf8_decode t"
  by (simp add: utf8_decode.simps(2))

lemma utf8_decode_two:
  "0xC2 \<le> (of_char b :: nat) \<Longrightarrow> (of_char b :: nat) \<le> 0xDF \<Longrightarrow> in_range 0x80 0xBF c \<Longrightarrow>
   utf8_decode (b # c # t) = b # c # utf8_decode t"
  by (simp add: utf8_decode.simps(2))

lemma utf8_decode_three:
  "0xE0 \<le> (of_char b :: nat) \<Longrightarrow> (of_char b :: nat) \<le> 0xEF \<Longrightarrow>
   in_range (if (of_char b :: nat) = 0xE0 then 0xA0 else 0x80) (if (of_char b :: nat) = 0xED then 0x9F else 0xBF) c \<Longrightarrow>
   in_range 0x80 0xBF d \<Longrightarrow>
   utf8_decode (b # c # d # t) = b # c # d # utf8_decode t"
  by (simp add: utf8_decode.simps(2))

lemma utf8_decode_four:
  "0xF0 \<le> (of_char b :: nat) \<Longrightarrow> (of_char b :: nat) \<le> 0xF4 \<Longrightarrow>
   in_range (if (of_char b :: nat) = 0xF0 then 0x90 else 0x80) (if (of_char b :: nat) = 0xF4 then 0x8F else 0xBF) c \<Longrightarrow>
   in_range 0x80 0xBF d \<Longrightarrow> in_range 0x80 0xBF e \<Longrightarrow>
   utf8_decode (b # c # d # e # t) = b # c # d # e # utf8_decode t"
  by (simp add: utf8_decode.simps(2))

lemma utf8_decode_replacement: "utf8_decode (replacement @ t) = replacement @ utf8_decode t"
  by (simp add: replacement_def utf8_decode_three in_range_def)

lemma utf8_decode_replacement_end: "utf8_decode replacement = replacement"
  using utf8_decode_replacement [of "[]"] by simp

lemma utf8_decode_lead2:
  "0xC2 \<le> (of_char b :: nat) \<Longrightarrow> (of_char b :: nat) \<le> 0xDF \<Longrightarrow>
   utf8_decode (b # bs) =
     (case bs of
        [] \<Rightarrow> replacement
      | c # cs \<Rightarrow>
          if in_range 0x80 0xBF c then b # c # utf8_decode cs else replacement @ utf8_decode bs)"
  by (simp add: utf8_decode.simps(2))

lemma utf8_decode_lead3:
  "0xE0 \<le> (of_char b :: nat) \<Longrightarrow> (of_char b :: nat) \<le> 0xEF \<Longrightarrow>
   utf8_decode (b # bs) =
     (case bs of
        [] \<Rightarrow> replacement
      | c # cs \<Rightarrow>
          if \<not> in_range (if (of_char b :: nat) = 0xE0 then 0xA0 else 0x80)
                 (if (of_char b :: nat) = 0xED then 0x9F else 0xBF) c
          then replacement @ utf8_decode bs
          else
            (case cs of
               [] \<Rightarrow> replacement
             | d # ds \<Rightarrow>
                 if in_range 0x80 0xBF d then b # c # d # utf8_decode ds
                 else replacement @ utf8_decode cs))"
  by (simp add: utf8_decode.simps(2) Let_def)

lemma utf8_decode_lead4:
  "0xF0 \<le> (of_char b :: nat) \<Longrightarrow> (of_char b :: nat) \<le> 0xF4 \<Longrightarrow>
   utf8_decode (b # bs) =
     (case bs of
        [] \<Rightarrow> replacement
      | c # cs \<Rightarrow>
          if \<not> in_range (if (of_char b :: nat) = 0xF0 then 0x90 else 0x80)
                 (if (of_char b :: nat) = 0xF4 then 0x8F else 0xBF) c
          then replacement @ utf8_decode bs
          else
            (case cs of
               [] \<Rightarrow> replacement
             | d # ds \<Rightarrow>
                 if \<not> in_range 0x80 0xBF d then replacement @ utf8_decode cs
                 else
                   (case ds of
                      [] \<Rightarrow> replacement
                    | e # es \<Rightarrow>
                        if in_range 0x80 0xBF e then b # c # d # e # utf8_decode es
                        else replacement @ utf8_decode ds)))"
  by (simp add: utf8_decode.simps(2) Let_def)

lemma utf8_decode_bad_lead:
  "0x7F < (of_char b :: nat) \<Longrightarrow> (of_char b :: nat) < 0xC2 \<or> 0xF4 < (of_char b :: nat) \<Longrightarrow>
   utf8_decode (b # bs) = replacement @ utf8_decode bs"
  by (auto simp add: utf8_decode.simps(2) Let_def)

lemma utf8_decode_idem: "utf8_decode (utf8_decode s) = utf8_decode s"
proof (induction "length s" arbitrary: s rule: less_induct)
  case less
  show ?case
  proof (cases s)
    case Nil
    then show ?thesis by simp
  next
    case (Cons b bs)
    let ?n = "of_char b :: nat"
    have ih: "utf8_decode (utf8_decode t) = utf8_decode t" if "length t \<le> length bs" for t
      using less [of t] that Cons by simp
    have at_end: ?thesis if "utf8_decode s = replacement"
      using that by (simp add: utf8_decode_replacement_end)
    have resume: ?thesis if "utf8_decode s = replacement @ utf8_decode t" "length t \<le> length bs" for t
      using that ih [of t] by (simp add: utf8_decode_replacement)
    consider (one) "?n \<le> 0x7F"
      | (two) "0xC2 \<le> ?n" "?n \<le> 0xDF"
      | (three) "0xE0 \<le> ?n" "?n \<le> 0xEF"
      | (four) "0xF0 \<le> ?n" "?n \<le> 0xF4"
      | (bad) "0x7F < ?n" "?n < 0xC2 \<or> 0xF4 < ?n"
      by linarith
    then show ?thesis
    proof cases
      case one
      then show ?thesis using ih [of bs] Cons by (simp add: utf8_decode_one)
    next
      case two
      note lead = utf8_decode_lead2 [OF two, of bs]
      show ?thesis
      proof (cases bs)
        case Nil
        then show ?thesis using lead Cons by (intro at_end) simp
      next
        case c: (Cons c cs)
        show ?thesis
        proof (cases "in_range 0x80 0xBF c")
          case True
          then show ?thesis
            using lead c Cons ih [of cs] two by (simp add: utf8_decode_two)
        next
          case False
          then show ?thesis using lead c Cons by (intro resume [of bs]) simp_all
        qed
      qed
    next
      case three
      note lead = utf8_decode_lead3 [OF three, of bs]
      let ?ok = "in_range (if ?n = 0xE0 then 0xA0 else 0x80) (if ?n = 0xED then 0x9F else 0xBF)"
      show ?thesis
      proof (cases bs)
        case Nil
        then show ?thesis using lead Cons by (intro at_end) simp
      next
        case c: (Cons c cs)
        show ?thesis
        proof (cases "?ok c")
          case False
          then show ?thesis using lead c Cons by (intro resume [of bs]) simp_all
        next
          case True
          show ?thesis
          proof (cases cs)
            case Nil
            then show ?thesis using lead c True Cons by (intro at_end) simp
          next
            case d: (Cons d ds)
            show ?thesis
            proof (cases "in_range 0x80 0xBF d")
              case False
              then show ?thesis using lead c d True Cons by (intro resume [of cs]) simp_all
            next
              case dok: True
              have "utf8_decode s = b # c # d # utf8_decode ds"
                using lead c d True dok Cons by simp
              then show ?thesis
                using ih [of ds] c d three True dok by (simp add: utf8_decode_three)
            qed
          qed
        qed
      qed
    next
      case four
      note lead = utf8_decode_lead4 [OF four, of bs]
      let ?ok = "in_range (if ?n = 0xF0 then 0x90 else 0x80) (if ?n = 0xF4 then 0x8F else 0xBF)"
      show ?thesis
      proof (cases bs)
        case Nil
        then show ?thesis using lead Cons by (intro at_end) simp
      next
        case c: (Cons c cs)
        show ?thesis
        proof (cases "?ok c")
          case False
          then show ?thesis using lead c Cons by (intro resume [of bs]) simp_all
        next
          case True
          show ?thesis
          proof (cases cs)
            case Nil
            then show ?thesis using lead c True Cons by (intro at_end) simp
          next
            case d: (Cons d ds)
            show ?thesis
            proof (cases "in_range 0x80 0xBF d")
              case False
              then show ?thesis using lead c d True Cons by (intro resume [of cs]) simp_all
            next
              case dok: True
              show ?thesis
              proof (cases ds)
                case Nil
                then show ?thesis using lead c d True dok Cons by (intro at_end) simp
              next
                case e: (Cons e es)
                show ?thesis
                proof (cases "in_range 0x80 0xBF e")
                  case False
                  then show ?thesis
                    using lead c d e True dok Cons by (intro resume [of ds]) simp_all
                next
                  case eok: True
                  have "utf8_decode s = b # c # d # e # utf8_decode es"
                    using lead c d e True dok eok Cons by simp
                  then show ?thesis
                    using ih [of es] c d e four True dok eok by (simp add: utf8_decode_four)
                qed
              qed
            qed
          qed
        qed
      qed
    next
      case bad
      show ?thesis
        using utf8_decode_bad_lead [OF bad, of bs] Cons by (intro resume [of bs]) simp_all
    qed
  qed
qed

subsection \<open>ASCII strings\<close>

lemma ascii_append [simp]: "ascii (a @ b) = (ascii a \<and> ascii b)"
  by (simp add: ascii_def)

lemma ascii_Nil [simp]: "ascii []"
  by (simp add: ascii_def)

lemma ascii_Cons [simp]: "ascii (c # s) = ((of_char c :: nat) < 128 \<and> ascii s)"
  by (simp add: ascii_def)

lemma ascii_well_formed: "ascii s \<Longrightarrow> well_formed s"
  unfolding well_formed_def by (induction s) (simp_all add: utf8_decode_one)

lemma ascii_concat: "(\<And>x. x \<in> set xs \<Longrightarrow> ascii x) \<Longrightarrow> ascii (concat xs)"
  by (induction xs) simp_all

lemma ascii_join: "ascii sep \<Longrightarrow> (\<And>x. x \<in> set xs \<Longrightarrow> ascii x) \<Longrightarrow> ascii (join sep xs)"
  by (induction sep xs rule: join.induct) simp_all

lemma unreserved_ascii: "unreserved c \<Longrightarrow> (of_char c :: nat) < 128"
  by (auto simp add: unreserved_def Let_def)

lemma ascii_urlencoded_byte: "ascii (urlencoded_byte c)"
  using hex_digit_props(6) [OF of_char_div16 [of c]] hex_digit_props(6) [of "of_char c mod 16"]
    unreserved_ascii [of c]
  by (simp add: urlencoded_byte_def)

lemma ascii_urlencoded_encode: "ascii (urlencoded_encode s)"
  unfolding urlencoded_encode_def by (rule ascii_concat) (auto simp add: ascii_urlencoded_byte)

lemma ascii_urlencoded_serialize: "ascii (urlencoded_serialize tuples)"
  unfolding urlencoded_serialize_def
  by (rule ascii_join) (auto simp add: serialize_tuple_def ascii_urlencoded_encode)

lemma well_formed_decoded [simp]: "well_formed (utf8_decode s)"
  by (simp add: well_formed_def utf8_decode_idem)

section \<open>The query object of a URL: lemmas\<close>

lemma searchParams_well_formed:
  "t \<in> set (searchParams u) \<Longrightarrow> well_formed (fst t) \<and> well_formed (snd t)"
  by (auto simp add: searchParams_def urlencoded_parse_def parse_tuple_def urlencoded_decode_def)

lemma searchParams_update_params:
  "searchParams (searchParams_update tuples u) =
     map (\<lambda>t. (utf8_decode (fst t), utf8_decode (snd t))) tuples"
proof -
  have "searchParams (searchParams_update tuples u) = urlencoded_parse (urlencoded_serialize tuples)"
    by (simp add: searchParams_def searchParams_update_def Let_def)
  then show ?thesis by (simp add: urlencoded_parse_serialize)
qed

lemma searchParams_update_same:
  assumes "\<And>t. t \<in> set tuples \<Longrightarrow> well_formed (fst t) \<and> well_formed (snd t)"
  shows "searchParams (searchParams_update tuples u) = tuples"
proof -
  have "map (\<lambda>t. (utf8_decode (fst t), utf8_decode (snd t))) tuples = map (\<lambda>t. t) tuples"
    using assms by (intro map_cong) (simp_all add: well_formed_def)
  then show ?thesis by (simp add: searchParams_update_params)
qed

lemma searchParams_delete_params:
  "searchParams (searchParams_delete name u) = filter (\<lambda>(n, v). n \<noteq> name) (searchParams u)"
  unfolding searchParams_delete_def
  by (rule searchParams_update_same) (use searchParams_well_formed in auto)

lemma set_tuple_members:
  "t \<in> set (set_tuple name val tuples) \<Longrightarrow> t = (name, val) \<or> t \<in> set tuples"
  by (induction name val tuples rule: set_tuple.induct) (auto split: if_splits)

lemma searchParams_set_params:
  assumes "well_formed name" "well_formed val"
  shows "searchParams (searchParams_set name val u) = set_tuple name val (searchParams u)"
  unfolding searchParams_set_def
proof (rule searchParams_update_same)
  fix t assume "t \<in> set (set_tuple name val (searchParams u))"
  then show "well_formed (fst t) \<and> well_formed (snd t)"
    using set_tuple_members [of t name val "searchParams u"] assms searchParams_well_formed [of t u]
    by auto
qed

lemma set_tuple_value:
  "map snd (filter (\<lambda>(n, v). n = name) (set_tuple name val tuples)) = [val]"
  by (induction name val tuples rule: set_tuple.induct) (auto simp add: filter_empty_conv)

lemma set_tuple_others:
  "filter (\<lambda>(n, v). n \<noteq> name) (set_tuple name val tuples) = filter (\<lambda>(n, v). n \<noteq> name) tuples"
  by (induction name val tuples rule: set_tuple.induct) auto


lemma searchParams_update_twice [simp]:
  "searchParams_update a (searchParams_update b u) = searchParams_update a u"
  by (simp add: searchParams_update_def)

lemma searchParams_delete_idem:
  "searchParams_delete name (searchParams_delete name u) = searchParams_delete name u"
proof -
  have "searchParams_delete name (searchParams_delete name u) =
      searchParams_update (filter (\<lambda>(n, v). n \<noteq> name) (searchParams (searchParams_delete name u))) u"
    by (simp add: searchParams_delete_def)
  then show ?thesis
    by (simp add: searchParams_delete_params) (simp add: searchParams_delete_def)
qed

lemma searchParams_update_frame [simp]:
  "scheme (searchParams_update t u) = scheme u"
  "username (searchParams_update t u) = username u"
  "password (searchParams_update t u) = password u"
  "host (searchParams_update t u) = host u"
  "port (searchParams_update t u) = port u"
  "path (searchParams_update t u) = path u"
  "fragment (searchParams_update t u) = fragment u"
  by (simp_all add: searchParams_update_def)

lemma searchParams_set_frame [simp]:
  "scheme (searchParams_set n v u) = scheme u"
  "username (searchParams_set n v u) = username u"
  "password (searchParams_set n v u) = password u"
  "host (searchParams_set n v u) = host u"
  "port (searchParams_set n v u) = port u"
  "path (searchParams_set n v u) = path u"
  "fragment (searchParams_set n v u) = fragment u"
  by (simp_all add: searchParams_set_def)

lemma href_split:
  "href u = href (u\<lparr>url_query := None, fragment := None\<rparr>) @
     (case url_query u of None \<Rightarrow> [] | Some q \<Rightarrow> ''?'' @ q) @
     (case fragment u of None \<Rightarrow> [] | Some f \<Rightarrow> ''#'' @ f)"
  by (simp add: href_def cong: option.case_cong list.case_cong)

lemma ascii_href_update:
  assumes "ascii (href u)"
  shows "ascii (href (searchParams_update tuples u))"
proof -
  let ?u' = "searchParams_update tuples u"
  have same: "?u'\<lparr>url_query := None, fragment := None\<rparr> = u\<lparr>url_query := None, fragment := None\<rparr>"
    "fragment ?u' = fragment u"
    by (simp_all add: searchParams_update_def)
  have "ascii (case url_query ?u' of None \<Rightarrow> [] | Some q \<Rightarrow> ''?'' @ q)"
    by (simp add: searchParams_update_def Let_def ascii_urlencoded_serialize)
  moreover have "ascii (href (u\<lparr>url_query := None, fragment := None\<rparr>))"
    "ascii (case fragment u of None \<Rightarrow> [] | Some f \<Rightarrow> ''#'' @ f)"
    using assms by (subst (asm) href_split, simp)+
  ultimately show ?thesis
    by (subst href_split) (simp add: same)
qed

section \<open>The completion callback\<close>

lemma hook_calls_append [simp]: "hook_calls (a @ b) = hook_calls a @ hook_calls b"
  by (simp add: hook_calls_def)

lemma hook_calls_logs [simp]: "hook_calls (logDebug s m) = []" "hook_calls (logError s t e) = []"
  by (simp_all add: logDebug_def logError_def)

lemma hook_calls_onceVerified [simp]:
  "hook_calls (fst (onceVerified s err profile info challenge)) = []"
  by (simp add: onceVerified_def split: sum.splits)

lemma onceVerified_error:
  "truthy_host err \<Longrightarrow>
   onceVerified s err pr i c = (logError s ''CAS verified callback error'' err @ [Fail c], Returned)"
  by (simp add: onceVerified_def)

lemma done2_returns:
  "snd (onceVerified s (Plain err) (Plain profile) info challenge) = Returned"
  by (simp add: onceVerified_def)

lemma done2_error:
  "truthy err \<Longrightarrow>
   done2 s err profile =
     logError s ''CAS verified callback error'' (Plain err) @ [Fail (Plain JUndefined)]"
  by (simp add: done2_def onceVerified_error)

text \<open>
  When \<open>JSON.stringify(profile)\<close> returns, and whenever \<open>err\<close> is truthy, the callback
  returns and declares exactly one outcome: \<open>fail(challenge)\<close> when \<open>err\<close> is truthy,
  \<open>success(profile, info)\<close> when \<open>err\<close> is falsy and \<open>profile\<close> truthy, and
  \<open>fail(challenge)\<close> again when both are falsy.
\<close>

lemma onceVerified_serializable:
  assumes "truthy_host err \<or> JSON_stringify_host profile = Inr j"
  shows "snd (onceVerified s err profile info challenge) = Returned \<and>
         outcomes (fst (onceVerified s err profile info challenge)) =
           (if truthy_host err then [Fail challenge]
            else if truthy_host profile then [Success profile info]
            else [Fail challenge])"
  using assms by (auto simp add: onceVerified_def)

text \<open>
  Claim C1 does not hold of the code. With a falsy \<open>err\<close> and a truthy \<open>profile\<close> the
  callback evaluates \<open>JSON.stringify(profile)\<close>, for the debug log and whether or not a
  debug logger was given, before it calls \<open>success\<close>. For a profile that cannot be
  serialised (the type \<open>object\<close> admits an object with a cycle) the call throws the
  \<open>TypeError\<close> and declares no outcome, where the claim, and the comment on
  \<open>VerifiedCallback\<close> (``if \<open>err\<close> is falsy, the authentication succeeds iff profile is
  truthy''), say that it succeeds.
\<close>

theorem onceVerified_unserializable:
  assumes "\<not> truthy_host err"
  shows "onceVerified s err (Unserializable m) info challenge =
           (logDebug s (JStr ''CAS verified callback success''), Thrown (JErr ''TypeError'' m)) \<and>
         outcomes (fst (onceVerified s err (Unserializable m) info challenge)) = []"
  using assms by (simp add: onceVerified_def)

theorem onceVerified_unserializable_witness:
  "\<not> truthy_host (Plain JNull) \<and> truthy_host cyclic_profile \<and>
   onceVerified example_strategy (Plain JNull) cyclic_profile (Plain JUndefined) (Plain JUndefined) =
     ([], Thrown (JErr ''TypeError'' ''Converting circular structure to JSON'')) \<and>
   outcomes
     (fst (onceVerified example_strategy (Plain JNull) cyclic_profile (Plain JUndefined)
        (Plain JUndefined))) = []"
proof -
  have a: "\<not> truthy_host (Plain JNull)" by simp
  show ?thesis
    using onceVerified_unserializable [OF a, of example_strategy
        "''Converting circular structure to JSON''" "Plain JUndefined" "Plain JUndefined"]
    by (simp add: cyclic_profile_def logDebug_def example_strategy_def)
qed

section \<open>Reading the validation response\<close>

text \<open>
  The strategy tests a branch of the document by its truthiness. The parser renders an
  element without attributes, children and text as the empty string, which is falsy:
  the test finds a branch only when its value is truthy.
\<close>

lemma validate_failure_branch:
  assumes "parseString p XML_PARSE_OPTIONS body = (err, result)" "\<not> truthy err" "truthy result"
    and "truthy (get_member (get_member result ''serviceresponse'') ''authenticationfailure'')"
  shows "validate p s body =
     logError s ''CAS verified callback error''
       (Plain (JErr ''Error'' (''Authentication failed '' @
          to_string (get_member (get_member (get_member (get_member result ''serviceresponse'')
             ''authenticationfailure'') ''$'') ''code'')))) @ [Fail (Plain JUndefined)]"
  using assms by (simp add: validate_def done2_error)

lemma validate_bad_parse:
  assumes "parseString p XML_PARSE_OPTIONS body = (err, result)" "truthy err \<or> \<not> truthy result"
  shows "validate p s body =
     logError s ''CAS verified callback error'' (Plain (JErr ''Error'' ''Bad response from server'')) @
     [Fail (Plain JUndefined)]"
  using assms by (auto simp add: validate_def done2_error)

lemma validate_no_root:
  assumes "parseString p XML_PARSE_OPTIONS body = (err, result)" "\<not> truthy err" "truthy result"
    and "nullish (get_member result ''serviceresponse'')"
  shows "validate p s body =
     logError s ''CAS verified callback error'' (Plain (JErr ''Error'' ''Authentication failed'')) @
     [Fail (Plain JUndefined)]"
proof -
  have "get_member (get_member result ''serviceresponse'') k = JUndefined" for k
    using assms(4) by (cases "get_member result ''serviceresponse''") (simp_all add: get_member_def)
  then show ?thesis
    using assms(1-3) by (simp add: validate_def done2_error)
qed

text \<open>
  Claim C3, as amended. When the parser reports an error or yields no result, the
  completion callback is called with \<open>Error("Bad response from server")\<close>, a null
  profile and no challenge: the error logger, if any, is given the message, the attempt
  fails by \<open>fail(undefined)\<close>, and the hook is not called. A body that parses to a
  document without the \<open>serviceresponse\<close> root is not a bad response for the strategy:
  the callback is called with \<open>Error("Authentication failed")\<close>, to the same effect.
\<close>

theorem validate_bad_response:
  assumes "parseString p XML_PARSE_OPTIONS body = (err, result)"
  shows "(truthy err \<or> \<not> truthy result \<longrightarrow>
            validate p s body =
              logError s ''CAS verified callback error'' (Plain (JErr ''Error'' ''Bad response from server'')) @
              [Fail (Plain JUndefined)]) \<and>
         (\<not> truthy err \<and> truthy result \<and> nullish (get_member result ''serviceresponse'') \<longrightarrow>
            validate p s body =
              logError s ''CAS verified callback error'' (Plain (JErr ''Error'' ''Authentication failed'')) @
              [Fail (Plain JUndefined)]) \<and>
         (truthy err \<or> \<not> truthy result \<or> nullish (get_member result ''serviceresponse'') \<longrightarrow>
            outcomes (validate p s body) = [Fail (Plain JUndefined)] \<and> hook_calls (validate p s body) = [])"
  using validate_bad_parse [OF assms, of s] validate_no_root [OF assms, of s]
  by (cases "truthy err \<or> \<not> truthy result") auto

theorem validate_bad_response_witness:
  "parseString example_platform XML_PARSE_OPTIONS ''Service unavailable'' = (JErr ''Error'' ''Non-whitespace before first tag.'', JUndefined) \<and>
   truthy (JErr ''Error'' ''Non-whitespace before first tag.'') \<and>
   validate example_platform example_strategy ''Service unavailable'' =
     [ErrorLogger ''CAS verified callback error'' (Plain (JErr ''Error'' ''Bad response from server'')),
      Fail (Plain JUndefined)] \<and>
   parseString example_platform XML_PARSE_OPTIONS html_body = (JNull, html_doc) \<and>
   \<not> truthy JNull \<and> truthy html_doc \<and> nullish (get_member html_doc ''serviceresponse'') \<and>
   validate example_platform example_strategy html_body =
     [ErrorLogger ''CAS verified callback error'' (Plain (JErr ''Error'' ''Authentication failed'')),
      Fail (Plain JUndefined)] \<and>
   hook_calls (validate example_platform example_strategy html_body) = []"
proof -
  have a: "parseString example_platform XML_PARSE_OPTIONS ''Service unavailable'' = (JErr ''Error'' ''Non-whitespace before first tag.'', JUndefined)"
    by (simp add: example_platform_def example_parseString_def failure_body_def success_body_def
        both_body_def empty_failure_body_def html_body_def)
  have b: "parseString example_platform XML_PARSE_OPTIONS html_body = (JNull, html_doc)"
    by (simp add: example_platform_def example_parseString_def failure_body_def success_body_def
        both_body_def empty_failure_body_def html_body_def)
  have c: "truthy html_doc" "nullish (get_member html_doc ''serviceresponse'')"
    by (simp_all add: html_doc_def get_member_def)
  show ?thesis
    using validate_bad_response [OF a, of example_strategy] validate_bad_response [OF b, of example_strategy] a b c
    by (simp add: logError_def example_strategy_def)
qed

text \<open>
  The claim as first stated fails twice: the reason given to \<open>fail\<close> is \<open>undefined\<close>, not
  the message, and a document with another root (here \<open>html\<close>) is answered with
  ``Authentication failed''.
\<close>

theorem validate_bad_response_counterexample:
  "outcomes (validate example_platform example_strategy ''Service unavailable'') = [Fail (Plain JUndefined)] \<and>
   get_member html_doc ''serviceresponse'' = JUndefined \<and>
   validate example_platform example_strategy html_body =
     [ErrorLogger ''CAS verified callback error'' (Plain (JErr ''Error'' ''Authentication failed'')),
      Fail (Plain JUndefined)]"
  by (simp add: validate_def done2_def onceVerified_def logError_def example_platform_def
      example_parseString_def example_strategy_def html_doc_def get_member_def
      failure_body_def success_body_def both_body_def empty_failure_body_def html_body_def)

text \<open>
  Claim C4, as amended. When the root holds an authentication-failure branch whose code
  is \<open>INVALID_TICKET\<close>, the completion callback is called with the error
  \<open>Error("Authentication failed INVALID_TICKET")\<close> and no challenge: the error logger,
  if any, is given that error, the attempt fails by \<open>fail(undefined)\<close>, and the hook is
  never called.
\<close>

theorem validate_invalid_ticket:
  assumes "parseString p XML_PARSE_OPTIONS body = (err, result)" "\<not> truthy err" "truthy result"
    and "get_member (get_member result ''serviceresponse'') ''authenticationfailure'' = failure"
    and "get_member (get_member failure ''$'') ''code'' = JStr ''INVALID_TICKET''"
  shows "validate p s body =
           logError s ''CAS verified callback error''
             (Plain (JErr ''Error'' ''Authentication failed INVALID_TICKET'')) @ [Fail (Plain JUndefined)] \<and>
         outcomes (validate p s body) = [Fail (Plain JUndefined)] \<and>
         hook_calls (validate p s body) = []"
proof -
  have "truthy failure"
    using assms(5) by (cases failure) (simp_all add: get_member_def)
  with assms have "validate p s body =
      logError s ''CAS verified callback error''
        (Plain (JErr ''Error'' (''Authentication failed '' @ to_string (JStr ''INVALID_TICKET'')))) @
      [Fail (Plain JUndefined)]"
    using validate_failure_branch [OF assms(1-3), of s] by simp
  then show ?thesis by simp
qed

theorem validate_invalid_ticket_witness:
  "parseString example_platform XML_PARSE_OPTIONS failure_body = (JNull, invalid_ticket_doc) \<and>
   get_member
     (get_member (get_member (get_member invalid_ticket_doc ''serviceresponse'') ''authenticationfailure'') ''$'')
     ''code'' = JStr ''INVALID_TICKET'' \<and>
   validate example_platform example_strategy failure_body =
     [ErrorLogger ''CAS verified callback error'' (Plain (JErr ''Error'' ''Authentication failed INVALID_TICKET'')),
      Fail (Plain JUndefined)] \<and>
   hook_calls (validate example_platform example_strategy failure_body) = []"
proof -
  have a: "parseString example_platform XML_PARSE_OPTIONS failure_body = (JNull, invalid_ticket_doc)"
    by (simp add: example_platform_def example_parseString_def failure_body_def success_body_def
        both_body_def empty_failure_body_def html_body_def)
  have b: "get_member
     (get_member (get_member (get_member invalid_ticket_doc ''serviceresponse'') ''authenticationfailure'') ''$'')
     ''code'' = JStr ''INVALID_TICKET''"
    by (simp add: invalid_ticket_doc_def get_member_def)
  have c: "\<not> truthy JNull" "truthy invalid_ticket_doc"
    by (simp_all add: invalid_ticket_doc_def)
  show ?thesis
    using validate_invalid_ticket [OF a c refl b, of example_strategy] a b
    by (simp add: logError_def example_strategy_def)
qed

text \<open>
  As first stated the claim asks for a reason that contains \<open>INVALID_TICKET\<close>; the
  reason the strategy gives to \<open>fail\<close> is \<open>undefined\<close>.
\<close>

theorem validate_invalid_ticket_counterexample:
  "get_member
     (get_member (get_member (get_member (snd (parseString example_platform XML_PARSE_OPTIONS failure_body))
        ''serviceresponse'') ''authenticationfailure'') ''$'')
     ''code'' = JStr ''INVALID_TICKET'' \<and>
   outcomes (validate example_platform example_strategy failure_body) = [Fail (Plain JUndefined)]"
  by (simp add: validate_def done2_def onceVerified_def logError_def example_platform_def
      example_parseString_def example_strategy_def invalid_ticket_doc_def get_member_def
      failure_body_def)

text \<open>
  Claim C7, as amended. When the root holds an authentication-success branch and no
  authentication-failure branch, the hook is called with exactly the value of the
  success branch (for the document of the claim, the profile of user \<open>alice\<close> with her
  \<open>email\<close> attribute); before that call the strategy declares no outcome and calls no
  hook, and whatever follows it is what the completion callback does with the hook's
  answers.
\<close>

theorem validate_success_hands_over:
  assumes "parseString p XML_PARSE_OPTIONS body = (err, result)" "\<not> truthy err" "truthy result"
    and "\<not> truthy (get_member (get_member result ''serviceresponse'') ''authenticationfailure'')"
    and "get_member (get_member result ''serviceresponse'') ''authenticationsuccess'' = profile"
    and "truthy profile"
  shows "(\<exists>pre. validate p s body =
            pre @ [VerifyHook profile] @
            concat (map (\<lambda>(e, pr, i, c). fst (onceVerified s e pr i c)) (verify s profile)) \<and>
          outcomes pre = [] \<and> hook_calls pre = []) \<and>
         hook_calls (validate p s body) = [VerifyHook profile]"
proof -
  let ?pre = "logDebug s (JStr ''CAS validate: ticket ok, calling user verify function'') @
              logDebug s (JStr (''Got profile: '' @ to_string (JSON_stringify profile)))"
  have "validate p s body =
      ?pre @ [VerifyHook profile] @
      concat (map (\<lambda>(e, pr, i, c). fst (onceVerified s e pr i c)) (verify s profile))"
    using assms by (simp add: validate_def)
  moreover have "outcomes ?pre = []" "hook_calls ?pre = []"
    by (simp_all add: logDebug_def)
  moreover have "hook_calls (concat (map (\<lambda>(e, pr, i, c). fst (onceVerified s e pr i c)) cs)) = []" for cs
    by (induction cs) (auto simp add: hook_calls_onceVerified)
  ultimately show ?thesis by auto
qed

theorem validate_success_hands_over_witness:
  "parseString example_platform XML_PARSE_OPTIONS success_body = (JNull, success_doc) \<and>
   get_member (get_member success_doc ''serviceresponse'') ''authenticationsuccess'' = alice_profile \<and>
   (\<exists>pre. validate example_platform example_strategy success_body =
            pre @ [VerifyHook alice_profile] @
            concat (map (\<lambda>(e, pr, i, c). fst (onceVerified example_strategy e pr i c))
              (verify example_strategy alice_profile)) \<and>
          outcomes pre = [] \<and> hook_calls pre = []) \<and>
   hook_calls (validate example_platform example_strategy success_body) = [VerifyHook alice_profile]"
proof -
  have a: "parseString example_platform XML_PARSE_OPTIONS success_body = (JNull, success_doc)"
    by (simp add: example_platform_def example_parseString_def failure_body_def success_body_def
        both_body_def empty_failure_body_def html_body_def)
  have b: "get_member (get_member success_doc ''serviceresponse'') ''authenticationsuccess'' = alice_profile"
    by (simp add: success_doc_def get_member_def)
  have c: "\<not> truthy JNull" "truthy success_doc" "truthy alice_profile"
    "\<not> truthy (get_member (get_member success_doc ''serviceresponse'') ''authenticationfailure'')"
    by (simp_all add: success_doc_def alice_profile_def get_member_def)
  show ?thesis
    using validate_success_hands_over [OF a c(1,2,4) b c(3), of example_strategy] a b by simp
qed

text \<open>
  Without the side condition the claim fails: in a document with both branches the
  success branch is \<open>alice\<close>'s profile and the hook is not called.
\<close>

theorem validate_success_counterexample:
  "get_member (get_member (snd (parseString example_platform XML_PARSE_OPTIONS both_body)) ''serviceresponse'')
     ''authenticationsuccess'' = alice_profile \<and>
   hook_calls (validate example_platform example_strategy both_body) = [] \<and>
   outcomes (validate example_platform example_strategy both_body) = [Fail (Plain JUndefined)]"
  by (simp add: validate_def done2_def onceVerified_def logError_def example_platform_def
      example_parseString_def example_strategy_def both_doc_def get_member_def
      failure_body_def success_body_def both_body_def empty_failure_body_def)

text \<open>
  Claim C9, as amended. When the root holds both an authentication-failure branch
  whose value is truthy (any failure element but an empty one without attributes) and an
  authentication-success branch, the failure branch, tested first, decides: the only
  outcome is a failure and the hook is never called.
\<close>

theorem validate_failure_precedence:
  assumes "parseString p XML_PARSE_OPTIONS body = (err, result)" "\<not> truthy err" "truthy result"
    and "truthy (get_member (get_member result ''serviceresponse'') ''authenticationfailure'')"
    and "truthy (get_member (get_member result ''serviceresponse'') ''authenticationsuccess'')"
  shows "outcomes (validate p s body) = [Fail (Plain JUndefined)] \<and> hook_calls (validate p s body) = []"
  using validate_failure_branch [OF assms(1-4)] by simp

theorem validate_failure_precedence_witness:
  "parseString example_platform XML_PARSE_OPTIONS both_body = (JNull, both_doc) \<and>
   truthy (get_member (get_member both_doc ''serviceresponse'') ''authenticationfailure'') \<and>
   truthy (get_member (get_member both_doc ''serviceresponse'') ''authenticationsuccess'') \<and>
   outcomes (validate example_platform example_strategy both_body) = [Fail (Plain JUndefined)] \<and>
   hook_calls (validate example_platform example_strategy both_body) = []"
proof -
  have a: "parseString example_platform XML_PARSE_OPTIONS both_body = (JNull, both_doc)"
    by (simp add: example_platform_def example_parseString_def failure_body_def success_body_def
        both_body_def empty_failure_body_def html_body_def)
  have c: "\<not> truthy JNull" "truthy both_doc"
    "truthy (get_member (get_member both_doc ''serviceresponse'') ''authenticationfailure'')"
    "truthy (get_member (get_member both_doc ''serviceresponse'') ''authenticationsuccess'')"
    by (simp_all add: both_doc_def alice_profile_def get_member_def)
  show ?thesis
    using validate_failure_precedence [OF a c, of example_strategy] a c by simp
qed

text \<open>
  As first stated the claim fails: with an empty failure element beside \<open>alice\<close>'s
  success branch the root holds both branches, the test does not find the first, the
  hook is called and, accepting, makes the attempt succeed.
\<close>

theorem validate_failure_precedence_counterexample:
  "get_member (get_member (snd (parseString example_platform XML_PARSE_OPTIONS empty_failure_body))
     ''serviceresponse'') ''authenticationfailure'' = JStr [] \<and>
   get_member (get_member (snd (parseString example_platform XML_PARSE_OPTIONS empty_failure_body))
     ''serviceresponse'') ''authenticationsuccess'' = alice_profile \<and>
   hook_calls (validate example_platform example_strategy empty_failure_body) =
     [VerifyHook alice_profile] \<and>
   outcomes (validate example_platform example_strategy empty_failure_body) =
     [Success (Plain alice_profile) (Plain JUndefined)]"
  by (simp add: validate_def onceVerified_def logDebug_def example_platform_def
      example_parseString_def example_strategy_def empty_failure_doc_def get_member_def
      accept_hook_def alice_profile_def Let_def
      failure_body_def success_body_def both_body_def empty_failure_body_def)

section \<open>The service URL\<close>

lemma example_parse_ticket:
  "urlencoded_parse ''ticket=ST-1&x=1&ticket=2'' = [(''ticket'', ''ST-1''), (''x'', ''1''), (''ticket'', ''2'')]"
  by code_simp

lemma example_serialize_x: "urlencoded_serialize [(''x'', ''1'')] = ''x=1''"
  by code_simp

lemma example_parse_x: "urlencoded_parse ''x'' = [(''x'', [])]"
  by code_simp

lemma example_serialize_x_empty: "urlencoded_serialize [(''x'', [])] = ''x=''"
  by code_simp

text \<open>
  Claim C10. When the URL constructor accepts the request's URL, giving the URL \<open>u\<close>,
  the service URL is the serialisation of \<open>u\<close> after \<open>searchParams.delete("ticket")\<close>:
  the tuples of its query are those of \<open>u\<close> in their order without any tuple named
  \<open>ticket\<close>, however many there were, and scheme, credentials, host, port, path and
  fragment are those of \<open>u\<close>. The query string itself is written anew by the serialiser,
  which is the normalisation the claim allows for.
\<close>

theorem getReqService_strips_ticket:
  assumes "new_URL p (originalUrl req) (serverUrl (config s)) = Some u"
  shows "getReqService p s req = Some (href (searchParams_delete ''ticket'' u)) \<and>
         searchParams (searchParams_delete ''ticket'' u) =
           filter (\<lambda>(n, v). n \<noteq> ''ticket'') (searchParams u) \<and>
         scheme (searchParams_delete ''ticket'' u) = scheme u \<and>
         username (searchParams_delete ''ticket'' u) = username u \<and>
         password (searchParams_delete ''ticket'' u) = password u \<and>
         host (searchParams_delete ''ticket'' u) = host u \<and>
         port (searchParams_delete ''ticket'' u) = port u \<and>
         path (searchParams_delete ''ticket'' u) = path u \<and>
         fragment (searchParams_delete ''ticket'' u) = fragment u"
  using assms by (simp add: getReqService_def searchParams_delete_params) (simp add: searchParams_delete_def)

theorem getReqService_strips_ticket_witness:
  "new_URL example_platform (originalUrl (example_request ''/cb?ticket=ST-1&x=1&ticket=2'' [(''ticket'', JArr [JStr ''ST-1'', JStr ''2'']), (''x'', JStr ''1'')]))
     (serverUrl (config example_strategy)) = Some (https_url ''app.example'' [''cb''] (Some ''ticket=ST-1&x=1&ticket=2'')) \<and>
   getReqService example_platform example_strategy
     (example_request ''/cb?ticket=ST-1&x=1&ticket=2'' [(''ticket'', JArr [JStr ''ST-1'', JStr ''2'']), (''x'', JStr ''1'')]) =
     Some ''https://app.example/cb?x=1'' \<and>
   searchParams (https_url ''app.example'' [''cb''] (Some ''ticket=ST-1&x=1&ticket=2'')) = [(''ticket'', ''ST-1''), (''x'', ''1''), (''ticket'', ''2'')] \<and>
   searchParams (searchParams_delete ''ticket'' (https_url ''app.example'' [''cb''] (Some ''ticket=ST-1&x=1&ticket=2''))) = [(''x'', ''1'')] \<and>
   path (searchParams_delete ''ticket'' (https_url ''app.example'' [''cb''] (Some ''ticket=ST-1&x=1&ticket=2''))) = [''cb''] \<and>
   host (searchParams_delete ''ticket'' (https_url ''app.example'' [''cb''] (Some ''ticket=ST-1&x=1&ticket=2''))) = Some ''app.example''"
proof -
  let ?u = "https_url ''app.example'' [''cb''] (Some ''ticket=ST-1&x=1&ticket=2'')"
  let ?req = "example_request ''/cb?ticket=ST-1&x=1&ticket=2'' [(''ticket'', JArr [JStr ''ST-1'', JStr ''2'']), (''x'', JStr ''1'')]"
  have a: "new_URL example_platform (originalUrl ?req) (serverUrl (config example_strategy)) = Some ?u"
    by (simp add: example_platform_def example_request_def example_strategy_def example_config_def
        example_new_URL_def)
  have b: "searchParams ?u = [(''ticket'', ''ST-1''), (''x'', ''1''), (''ticket'', ''2'')]"
    by (simp add: searchParams_def https_url_def example_parse_ticket)
  have c: "href (searchParams_delete ''ticket'' ?u) = ''https://app.example/cb?x=1''"
    by (simp add: searchParams_delete_def b searchParams_update_def example_serialize_x)
       (simp add: https_url_def href_def)
  show ?thesis
    using getReqService_strips_ticket [OF a] a b c by (simp add: https_url_def)
qed

text \<open>
  Claim C8. Take a request whose URL \<open>u\<close> has no \<open>ticket\<close> parameter, and the same
  request after ticket removal, that is a request whose URL is \<open>u\<close> after
  \<open>searchParams.delete("ticket")\<close>: both resolve to the same service URL, because
  deleting twice gives the same URL as deleting once (so the equality does not depend
  on \<open>u\<close> having no ticket). In the instance that follows the first request has the
  query \<open>x\<close>, which the removal rewrites to \<open>x=\<close>.
\<close>

theorem getReqService_idempotent:
  assumes "new_URL p (originalUrl req) (serverUrl (config s)) = Some u"
    and "''ticket'' \<notin> fst ` set (searchParams u)"
    and "new_URL p (originalUrl req') (serverUrl (config s)) = Some (searchParams_delete ''ticket'' u)"
  shows "getReqService p s req' = getReqService p s req"
  using assms(1,3) by (simp add: getReqService_def searchParams_delete_idem)

theorem getReqService_idempotent_witness:
  "new_URL example_platform (originalUrl (example_request ''/cb?x'' [(''x'', JStr [])]))
     (serverUrl (config example_strategy)) = Some (https_url ''app.example'' [''cb''] (Some ''x'')) \<and>
   ''ticket'' \<notin> fst ` set (searchParams (https_url ''app.example'' [''cb''] (Some ''x''))) \<and>
   new_URL example_platform (originalUrl (example_request ''/cb?x='' [(''x'', JStr [])]))
     (serverUrl (config example_strategy)) =
     Some (searchParams_delete ''ticket'' (https_url ''app.example'' [''cb''] (Some ''x''))) \<and>
   getReqService example_platform example_strategy (example_request ''/cb?x='' [(''x'', JStr [])]) =
   getReqService example_platform example_strategy (example_request ''/cb?x'' [(''x'', JStr [])])"
proof -
  let ?u = "https_url ''app.example'' [''cb''] (Some ''x'')"
  have a: "new_URL example_platform (originalUrl (example_request ''/cb?x'' [(''x'', JStr [])]))
     (serverUrl (config example_strategy)) = Some ?u"
    by (simp add: example_platform_def example_request_def example_strategy_def example_config_def
        example_new_URL_def)
  have b: "searchParams ?u = [(''x'', [])]"
    by (simp add: searchParams_def https_url_def example_parse_x)
  have c: "searchParams_delete ''ticket'' ?u = https_url ''app.example'' [''cb''] (Some ''x='')"
    by (simp add: searchParams_delete_def b searchParams_update_def example_serialize_x_empty)
       (simp add: https_url_def)
  have d: "new_URL example_platform (originalUrl (example_request ''/cb?x='' [(''x'', JStr [])]))
     (serverUrl (config example_strategy)) = Some (searchParams_delete ''ticket'' ?u)"
    by (simp add: c) (simp add: example_platform_def example_request_def example_strategy_def
        example_config_def example_new_URL_def)
  have e: "''ticket'' \<notin> fst ` set (searchParams ?u)"
    by (simp add: b)
  show ?thesis
    using getReqService_idempotent [OF a e d] a d e by simp
qed

section \<open>The entry point\<close>

text \<open>
  In the statements below a request carries a parameter when the strategy's own test
  finds it, that is when its value in \<open>req.query\<close> is truthy; and the URL constructor is
  taken to accept the URLs it is given (otherwise its \<open>TypeError\<close> rejects the promise).
\<close>

lemma authenticate_without_ticket:
  assumes "\<not> truthy (query req ''RelayState'')" "\<not> truthy (query req ''ticket'')"
    and "new_URL p (originalUrl req) (serverUrl (config s)) = Some u"
    and "new_URL p (loginRoute (config s)) (base (config s)) = Some l"
  shows "authenticate p s req =
     (logDebug s (JStr (''Extracted service: '' @ href (searchParams_delete ''ticket'' u))) @
      logDebug s (JStr ''No ticket provided, starting login process'') @
      [Redirect (href (searchParams_set ''service'' (href (searchParams_delete ''ticket'' u)) l))],
      Fulfilled ())"
  using assms by (simp add: authenticate_def getReqService_def after_def)



text \<open>
  Claim C5. For a request with neither a \<open>RelayState\<close> nor a \<open>ticket\<close> parameter, whose
  URL serialises to ASCII as every URL does, \<open>authenticate\<close> declares exactly one
  outcome, a redirect, and returns normally. The target is the login route resolved
  against the base URL, with its query changed only in that it holds exactly one
  \<open>service\<close> parameter, whose value is the resolved service URL; and the query of that
  service URL has no \<open>ticket\<close> parameter.
\<close>

theorem authenticate_login_redirect:
  assumes "\<not> truthy (query req ''RelayState'')" "\<not> truthy (query req ''ticket'')"
    and "new_URL p (originalUrl req) (serverUrl (config s)) = Some u"
    and "new_URL p (loginRoute (config s)) (base (config s)) = Some l"
    and "ascii (href u)"
  shows "let service = href (searchParams_delete ''ticket'' u);
             target = searchParams_set ''service'' service l
         in getReqService p s req = Some service \<and>
            ''ticket'' \<notin> fst ` set (searchParams (searchParams_delete ''ticket'' u)) \<and>
            outcomes (fst (authenticate p s req)) = [Redirect (href target)] \<and>
            snd (authenticate p s req) = Fulfilled () \<and>
            scheme target = scheme l \<and> username target = username l \<and>
            password target = password l \<and> host target = host l \<and> port target = port l \<and>
            path target = path l \<and> fragment target = fragment l \<and>
            map snd (filter (\<lambda>(n, v). n = ''service'') (searchParams target)) = [service] \<and>
            filter (\<lambda>(n, v). n \<noteq> ''service'') (searchParams target) =
              filter (\<lambda>(n, v). n \<noteq> ''service'') (searchParams l)"
proof -
  let ?service = "href (searchParams_delete ''ticket'' u)"
  let ?target = "searchParams_set ''service'' ?service l"
  have "ascii ?service"
    unfolding searchParams_delete_def using assms(5) by (rule ascii_href_update)
  then have "well_formed ?service" by (rule ascii_well_formed)
  moreover have "well_formed ''service''" by (rule ascii_well_formed) simp
  ultimately have params: "searchParams ?target = set_tuple ''service'' ?service (searchParams l)"
    by (simp add: searchParams_set_params)
  have "getReqService p s req = Some ?service"
    using assms(3) by (simp add: getReqService_def)
  moreover have "''ticket'' \<notin> fst ` set (searchParams (searchParams_delete ''ticket'' u))"
    by (auto simp add: searchParams_delete_params)
  moreover have "outcomes (fst (authenticate p s req)) = [Redirect (href ?target)]"
    "snd (authenticate p s req) = Fulfilled ()"
    using authenticate_without_ticket [OF assms(1-4)] by simp_all
  ultimately show ?thesis
    by (simp add: Let_def params set_tuple_value set_tuple_others)
qed

theorem authenticate_login_redirect_witness:
  "\<not> truthy (query (example_request ''/cb'' []) ''RelayState'') \<and>
   \<not> truthy (query (example_request ''/cb'' []) ''ticket'') \<and>
   new_URL example_platform (originalUrl (example_request ''/cb'' [])) (serverUrl (config example_strategy)) =
     Some (https_url ''app.example'' [''cb''] None) \<and>
   new_URL example_platform (loginRoute (config example_strategy)) (base (config example_strategy)) =
     Some (https_url ''cas.example'' [''login''] None) \<and>
   ascii (href (https_url ''app.example'' [''cb''] None)) \<and>
   getReqService example_platform example_strategy (example_request ''/cb'' []) = Some ''https://app.example/cb'' \<and>
   outcomes (fst (authenticate example_platform example_strategy (example_request ''/cb'' []))) =
     [Redirect (href (searchParams_set ''service'' ''https://app.example/cb'' (https_url ''cas.example'' [''login''] None)))] \<and>
   map snd (filter (\<lambda>(n, v). n = ''service'')
     (searchParams (searchParams_set ''service'' ''https://app.example/cb'' (https_url ''cas.example'' [''login''] None)))) =
     [''https://app.example/cb'']"
proof -
  let ?req = "example_request ''/cb'' []"
  let ?u = "https_url ''app.example'' [''cb''] None"
  let ?l = "https_url ''cas.example'' [''login''] None"
  have q: "\<not> truthy (query ?req ''RelayState'')" "\<not> truthy (query ?req ''ticket'')"
    by (simp_all add: example_request_def)
  have a: "new_URL example_platform (originalUrl ?req) (serverUrl (config example_strategy)) = Some ?u"
    by (simp add: example_platform_def example_request_def example_strategy_def example_config_def
        example_new_URL_def)
  have b: "new_URL example_platform (loginRoute (config example_strategy)) (base (config example_strategy)) = Some ?l"
    by (simp add: example_platform_def example_strategy_def example_config_def example_new_URL_def)
  have h: "href ?u = ''https://app.example/cb''"
    by (simp add: https_url_def href_def)
  have c: "ascii (href ?u)"
    by (simp add: h)
  have d: "href (searchParams_delete ''ticket'' ?u) = ''https://app.example/cb''"
    by (simp add: searchParams_delete_def searchParams_def searchParams_update_def
        urlencoded_parse_def urlencoded_serialize_def)
       (simp add: https_url_def href_def)
  show ?thesis
    using authenticate_login_redirect [OF q a b c] q a b c
    by (simp add: Let_def d)
qed







text \<open>
  Claim C2 does not hold of the code. \<open>axios.get\<close> rejects its promise when the request
  fails on the network (and, by its default \<open>validateStatus\<close>, for every status outside
  200--299); \<open>authenticate\<close> awaits it outside any \<open>try\<close>, so the rejection becomes the
  rejection of the promise \<open>authenticate\<close> returns, and \<open>fail\<close> is never called. The
  branch that calls \<open>fail\<close> with the status text, commented ``if the CAS server cannot be
  reached for some reason, make authentication fail'', is reached only by a fulfilled
  response whose status is not 200 (lemma \<open>authenticate_status_not_200\<close>); the theorem
  is the run on a rejected request.
\<close>

lemma authenticate_status_not_200:
  assumes "\<not> truthy (query req ''RelayState'')" "truthy (query req ''ticket'')"
    and "new_URL p (originalUrl req) (serverUrl (config s)) = Some u"
    and "new_URL p (validateRoute (config s)) (base (config s)) = Some v"
    and "axios_get p
           (href (searchParams_set ''service'' (href (searchParams_delete ''ticket'' u))
              (searchParams_set ''ticket'' (to_string (query req ''ticket'')) v))) = Fulfilled res"
    and "status res \<noteq> 200"
  shows "snd (authenticate p s req) = Fulfilled () \<and>
         outcomes (fst (authenticate p s req)) = [Fail (Plain (JErr ''Error'' (statusText res)))]"
  using assms by (simp add: authenticate_def getReqService_def Let_def)

theorem authenticate_rejection_escapes:
  assumes "\<not> truthy (query req ''RelayState'')" "truthy (query req ''ticket'')"
    and "new_URL p (originalUrl req) (serverUrl (config s)) = Some u"
    and "new_URL p (validateRoute (config s)) (base (config s)) = Some v"
    and "axios_get p
           (href (searchParams_set ''service'' (href (searchParams_delete ''ticket'' u))
              (searchParams_set ''ticket'' (to_string (query req ''ticket'')) v))) = Rejected e"
  shows "snd (authenticate p s req) = Rejected e \<and> outcomes (fst (authenticate p s req)) = []"
  using assms by (simp add: authenticate_def getReqService_def Let_def)

theorem authenticate_rejection_escapes_witness:
  "\<not> truthy (query (example_request ''/cb?ticket=ST-1&x=1'' [(''ticket'', JStr ''ST-1''), (''x'', JStr ''1'')]) ''RelayState'') \<and>
   truthy (query (example_request ''/cb?ticket=ST-1&x=1'' [(''ticket'', JStr ''ST-1''), (''x'', JStr ''1'')]) ''ticket'') \<and>
   snd (authenticate example_platform example_strategy
     (example_request ''/cb?ticket=ST-1&x=1'' [(''ticket'', JStr ''ST-1''), (''x'', JStr ''1'')])) =
     Rejected (JErr ''AxiosError'' ''connect ECONNREFUSED 127.0.0.1:443'') \<and>
   outcomes (fst (authenticate example_platform example_strategy
     (example_request ''/cb?ticket=ST-1&x=1'' [(''ticket'', JStr ''ST-1''), (''x'', JStr ''1'')]))) = []"
proof -
  let ?req = "example_request ''/cb?ticket=ST-1&x=1'' [(''ticket'', JStr ''ST-1''), (''x'', JStr ''1'')]"
  have q: "\<not> truthy (query ?req ''RelayState'')" "truthy (query ?req ''ticket'')"
    by (simp_all add: example_request_def)
  have a: "new_URL example_platform (originalUrl ?req) (serverUrl (config example_strategy)) =
      Some (https_url ''app.example'' [''cb''] (Some ''ticket=ST-1&x=1''))"
    by (simp add: example_platform_def example_request_def example_strategy_def example_config_def
        example_new_URL_def)
  have b: "new_URL example_platform (validateRoute (config example_strategy)) (base (config example_strategy)) =
      Some (https_url ''cas.example'' [''p3'', ''serviceValidate''] None)"
    by (simp add: example_platform_def example_strategy_def example_config_def example_new_URL_def)
  have c: "axios_get example_platform t = Rejected (JErr ''AxiosError'' ''connect ECONNREFUSED 127.0.0.1:443'')" for t
    by (simp add: example_platform_def)
  show ?thesis
    using authenticate_rejection_escapes [OF q a b c] q by simp
qed

end
